theory Spec2Isabelle
  imports Main "HOL-Library.Sublist"
begin

section \<open>Strings of the JavaScript source\<close>

text \<open>
  Strings are \<^typ>\<open>string\<close>. File names and extensions are taken to be ASCII:
  \<open>toLowerCase\<close> is modelled on the letters \<open>A\<close> to \<open>Z\<close> and leaves every other
  character as it is.
\<close>

definition lower_char :: "char \<Rightarrow> char" where
  "lower_char c =
     (let n = (of_char c :: nat) in if 65 \<le> n \<and> n \<le> 90 then char_of (n + 32) else c)"

definition toLowerCase :: "string \<Rightarrow> string" where
  "toLowerCase s = map lower_char s"

text \<open>
  \<open>s.split('.')\<close>: the segments between the dots, in order. The result is never
  empty: a string with no dot gives the one-element list of the string itself, and
  the empty string gives \<open>['']\<close>.
\<close>

fun split_dot :: "string \<Rightarrow> string list" where
  "split_dot [] = [[]]"
| "split_dot (c # cs) =
     (if c = CHR ''.'' then [] # split_dot cs
      else (case split_dot cs of
              [] \<Rightarrow> [[c]]
            | w # ws \<Rightarrow> (c # w) # ws))"

text \<open>\<open>xs.join(sep)\<close> on a list of strings.\<close>

fun join :: "string \<Rightarrow> string list \<Rightarrow> string" where
  "join sep [] = []"
| "join sep [x] = x"
| "join sep (x # y # ys) = x @ sep @ join sep (y # ys)"

text \<open>Decimal rendering of a number inside a template literal.\<close>

definition digit_char :: "nat \<Rightarrow> char" where
  "digit_char d = char_of (48 + d)"

fun string_of_nat :: "nat \<Rightarrow> string" where
  "string_of_nat n =
     (if n < 10 then [digit_char n] else string_of_nat (n div 10) @ [digit_char (n mod 10)])"

declare string_of_nat.simps [simp del]

definition string_of_int :: "int \<Rightarrow> string" where
  "string_of_int i = (if i < 0 then CHR ''-'' # string_of_nat (nat (- i)) else string_of_nat (nat i))"


section \<open>FileUpload.jsx: the submission controller\<close>

subsection \<open>State\<close>

text \<open>
  A browser \<open>File\<close>: its name and its bytes. The five \<open>useState\<close> cells of the
  component are the fields of \<open>upload_state\<close>; \<open>null\<close> in a file cell is \<open>None\<close>.
\<close>

record js_file =
  name :: string
  content :: string

record upload_state =
  sofFile :: "js_file option"
  cpFile :: "js_file option"
  additionalFile :: "js_file option"
  loading :: bool
  error :: string

definition initial_upload :: upload_state where
  "initial_upload =
     \<lparr>sofFile = None, cpFile = None, additionalFile = None, loading = False, error = []\<rparr>"

text \<open>The three state setters that \<open>handleFileChange\<close> is called with.\<close>

datatype setter = setSofFile | setCpFile | setAdditionalFile

fun apply_setter :: "setter \<Rightarrow> js_file option \<Rightarrow> upload_state \<Rightarrow> upload_state" where
  "apply_setter setSofFile f s = s\<lparr>sofFile := f\<rparr>"
| "apply_setter setCpFile f s = s\<lparr>cpFile := f\<rparr>"
| "apply_setter setAdditionalFile f s = s\<lparr>additionalFile := f\<rparr>"

fun slot :: "setter \<Rightarrow> upload_state \<Rightarrow> js_file option" where
  "slot setSofFile s = sofFile s"
| "slot setCpFile s = cpFile s"
| "slot setAdditionalFile s = additionalFile s"

subsection \<open>handleFileChange\<close>

text \<open>
  \<open>fileNameParts[fileNameParts.length - 1].toLowerCase()\<close>. The index is in range
  because \<open>split\<close> never returns an empty array (\<open>split_dot_not_Nil\<close> below).
\<close>

definition fileExtension :: "js_file \<Rightarrow> string" where
  "fileExtension f =
     (let fileNameParts = split_dot (name f)
      in toLowerCase (fileNameParts ! (length fileNameParts - 1)))"

definition invalid_type_message :: "string list \<Rightarrow> string" where
  "invalid_type_message allowedTypes =
     ''Invalid file type for this slot. Allowed: '' @ join '', '' allowedTypes"

definition handleFileChange ::
  "setter \<Rightarrow> string list \<Rightarrow> js_file option \<Rightarrow> upload_state \<Rightarrow> upload_state" where
  "handleFileChange st allowedTypes fo s =
     (let s1 = s\<lparr>error := []\<rparr> in
      case fo of
        Some f \<Rightarrow>
          if fileExtension f \<notin> set allowedTypes
          then apply_setter st None (s1\<lparr>error := invalid_type_message allowedTypes\<rparr>)
          else apply_setter st (Some f) s1
      | None \<Rightarrow> apply_setter st None s1)"


subsection \<open>The extraction service's answer\<close>

text \<open>
  A parsed JSON value. Numbers are integers here, of a size that JavaScript prints
  digit by digit; fractions are outside the model. An object is the list of its
  properties, each key once.
\<close>

datatype json =
    JNull
  | JBool bool
  | JNum int
  | JStr string
  | JArr "json list"
  | JObj "(string \<times> json) list"

text \<open>
  The value of \<open>v.k\<close> for a parsed JSON value \<open>v\<close> and a property name \<open>k\<close> that no
  prototype defines (the source reads \<open>detail\<close> and \<open>processed_data\<close>): \<open>None\<close> is
  \<open>undefined\<close>, and reading a property of \<open>null\<close> throws a \<open>TypeError\<close>, whose message
  (here as V8 words it) is the \<open>Inl\<close> value.
\<close>

definition null_property_message :: "string \<Rightarrow> string" where
  "null_property_message k =
     ''Cannot read properties of null (reading '' @ [CHR 0x27] @ k @ [CHR 0x27] @ '')''"

fun own_prop :: "json \<Rightarrow> string \<Rightarrow> string + json option" where
  "own_prop JNull k = Inl (null_property_message k)"
| "own_prop (JObj kvs) k = Inr (map_of kvs k)"
| "own_prop _ k = Inr None"

text \<open>Truthiness, as \<open>||\<close> tests it; \<open>None\<close> is \<open>undefined\<close>.\<close>

fun truthy :: "json option \<Rightarrow> bool" where
  "truthy None = False"
| "truthy (Some JNull) = False"
| "truthy (Some (JBool b)) = b"
| "truthy (Some (JNum n)) = (n \<noteq> 0)"
| "truthy (Some (JStr s)) = (s \<noteq> [])"
| "truthy (Some (JArr _)) = True"
| "truthy (Some (JObj _)) = True"

text \<open>
  The string a template literal makes of a value: an array joins its elements with
  commas (\<open>null\<close> elements as the empty string), an object is \<open>[object Object]\<close>.
\<close>

fun js_to_string :: "json \<Rightarrow> string" where
  "js_to_string JNull = ''null''"
| "js_to_string (JBool b) = (if b then ''true'' else ''false'')"
| "js_to_string (JNum n) = string_of_int n"
| "js_to_string (JStr s) = s"
| "js_to_string (JArr xs) = join '','' (map (\<lambda>x. if x = JNull then [] else js_to_string x) xs)"
| "js_to_string (JObj _) = ''[object Object]''"

text \<open>
  What \<open>await response.json()\<close> gives: the parsed body, or a rejection with a
  \<open>SyntaxError\<close> and its message when the body is not JSON.
\<close>

datatype parsed = SyntaxError string | Parsed json

record response =
  status :: nat
  statusText :: string
  json_body :: parsed

text \<open>\<open>response.ok\<close>: the status is in the range 200 to 299.\<close>

definition ok :: "response \<Rightarrow> bool" where
  "ok r = (200 \<le> status r \<and> status r \<le> 299)"

text \<open>
  How \<open>await fetch(...)\<close> settles: a rejection (no answer from the network) with the
  error's message, or a response.
\<close>

datatype fetch_outcome = Rejected string | Responded response

text \<open>
  \<open>navigate('/results', { state: { processedData: ... } })\<close>, the one transfer of
  records to the results view; \<open>None\<close> inside is \<open>undefined\<close>.
\<close>

datatype navigation = Navigate "json option"

subsection \<open>handleSubmit\<close>

text \<open>
  The \<open>FormData\<close> sent: its parts in the order of the \<open>append\<close> calls, each a field
  name and a file.
\<close>

type_synonym form_data = "(string \<times> js_file) list"

definition build_formData :: "js_file \<Rightarrow> js_file option \<Rightarrow> js_file option \<Rightarrow> form_data" where
  "build_formData sof cp additional =
     [(''sof_file'', sof)]
     @ (case cp of Some f \<Rightarrow> [(''cp_file'', f)] | None \<Rightarrow> [])
     @ (case additional of Some f \<Rightarrow> [(''additional_file'', f)] | None \<Rightarrow> [])"

definition missing_sof_message :: string where
  "missing_sof_message = ''Please upload the Statement of Facts document (SOF).''"

text \<open>
  \<open>handleSubmit\<close> is asynchronous. \<open>handleSubmit_begin\<close> is its run up to
  \<open>await fetch\<close>: the new state, and the body of the request it sends (\<open>None\<close> when it
  returns before \<open>fetch\<close>).
\<close>

definition handleSubmit_begin :: "upload_state \<Rightarrow> upload_state \<times> form_data option" where
  "handleSubmit_begin s =
     (case sofFile s of
        None \<Rightarrow> (s\<lparr>error := missing_sof_message\<rparr>, None)
      | Some sof \<Rightarrow>
          (s\<lparr>loading := True, error := []\<rparr>,
           Some (build_formData sof (cpFile s) (additionalFile s))))"

text \<open>
  The body of the \<open>try\<close> block once \<open>fetch\<close> has settled: \<open>Inl\<close> is the message of
  the error thrown, \<open>Inr\<close> the navigation made.
\<close>

definition server_error_message :: "response \<Rightarrow> json option \<Rightarrow> string" where
  "server_error_message r detail =
     ''Server error: '' @ string_of_nat (status r) @ '' - ''
       @ (case detail of
            Some d \<Rightarrow> if truthy (Some d) then js_to_string d else statusText r
          | None \<Rightarrow> statusText r)"

fun try_block :: "fetch_outcome \<Rightarrow> string + navigation" where
  "try_block (Rejected msg) = Inl msg"
| "try_block (Responded r) =
     (if \<not> ok r then
        (case json_body r of
           SyntaxError msg \<Rightarrow> Inl msg
         | Parsed errorData \<Rightarrow>
             (case own_prop errorData ''detail'' of
                Inl msg \<Rightarrow> Inl msg
              | Inr detail \<Rightarrow> Inl (server_error_message r detail)))
      else
        (case json_body r of
           SyntaxError msg \<Rightarrow> Inl msg
         | Parsed result \<Rightarrow>
             (case own_prop result ''processed_data'' of
                Inl msg \<Rightarrow> Inl msg
              | Inr processed_data \<Rightarrow> Inr (Navigate processed_data))))"

text \<open>
  \<open>handleSubmit_resume\<close> is the rest of \<open>handleSubmit\<close>: the \<open>try\<close> block, its
  \<open>catch\<close> and its \<open>finally\<close>.
\<close>

definition handleSubmit_resume ::
  "fetch_outcome \<Rightarrow> upload_state \<Rightarrow> upload_state \<times> navigation option" where
  "handleSubmit_resume out s =
     (case try_block out of
        Inl msg \<Rightarrow> (s\<lparr>error := ''Failed to process documents: '' @ msg, loading := False\<rparr>, None)
      | Inr nav \<Rightarrow> (s\<lparr>loading := False\<rparr>, Some nav))"

subsection \<open>The inputs and the button\<close>

text \<open>
  The allowed extensions each file input passes to \<open>handleFileChange\<close>, and the
  \<open>disabled\<close> property of the Submit Documents button, computed from the state of a
  render.
\<close>

fun allowed_for :: "setter \<Rightarrow> string list" where
  "allowed_for setSofFile = [''pdf'', ''docx'']"
| "allowed_for setCpFile = [''pdf'', ''docx'']"
| "allowed_for setAdditionalFile = [''docx'', ''txt'', ''pdf'']"



section \<open>ResultsTable.jsx: the result store\<close>

subsection \<open>Records\<close>

text \<open>
  A field of a record holds a scalar; numbers are integers, as above. \<open>Undefined\<close> is
  what reading a missing field gives. On these values \<open>===\<close> is equality.
\<close>

datatype scalar = Undefined | Null | Bool bool | Num int | Str string

text \<open>
  A record (a table row) is a JavaScript object, kept as the list of its own
  properties in the order \<open>Object.keys\<close> lists them.
\<close>

type_synonym row = "(string \<times> scalar) list"

definition keys :: "row \<Rightarrow> string list" where
  "keys r = map fst r"

definition get :: "row \<Rightarrow> string \<Rightarrow> scalar" where
  "get r k = (case map_of r k of None \<Rightarrow> Undefined | Some v \<Rightarrow> v)"

text \<open>
  Property order: the keys that are array indices (canonical decimal numerals below
  \<open>2^32 - 1\<close>) come first, ascending, and the other keys follow in the order they
  were created. Writing an existing key keeps its place.
\<close>

definition is_digit :: "char \<Rightarrow> bool" where
  "is_digit c = (let n = (of_char c :: nat) in 48 \<le> n \<and> n \<le> 57)"

definition index_value :: "string \<Rightarrow> int" where
  "index_value k = foldl (\<lambda>n c. 10 * n + (of_char c - 48)) 0 k"

definition is_array_index :: "string \<Rightarrow> bool" where
  "is_array_index k =
     (k \<noteq> [] \<and> list_all is_digit k \<and> (k = ''0'' \<or> hd k \<noteq> CHR ''0'')
      \<and> index_value k < 4294967295)"

fun insert_index :: "string \<Rightarrow> scalar \<Rightarrow> row \<Rightarrow> row" where
  "insert_index k v [] = [(k, v)]"
| "insert_index k v ((k', v') # rest) =
     (if is_array_index k' \<and> index_value k' < index_value k
      then (k', v') # insert_index k v rest
      else (k, v) # (k', v') # rest)"

definition set_prop :: "string \<Rightarrow> scalar \<Rightarrow> row \<Rightarrow> row" where
  "set_prop k v r =
     (if k \<in> set (keys r) then map (\<lambda>(k', v'). if k' = k then (k', v) else (k', v')) r
      else if is_array_index k then insert_index k v r
      else r @ [(k, v)])"

subsection \<open>State\<close>

record results_state =
  tableData :: "row list"
  editDialogOpen :: bool
  deleteDialogOpen :: bool
  currentRowToEdit :: "row option"
  currentEditedRow :: row
  rowToDeleteId :: scalar

text \<open>
  The state at mount. \<open>location.state?.processedData || []\<close>: the records handed over
  by the navigation, or the empty list when there are none. The effect that runs
  after the mount sets the table to these same records, or clears a table that is
  already empty, so it leaves this state as it is.
\<close>

definition initial_results :: "row list option \<Rightarrow> results_state" where
  "initial_results processedData =
     \<lparr>tableData = (case processedData of Some d \<Rightarrow> d | None \<Rightarrow> []),
      editDialogOpen = False, deleteDialogOpen = False,
      currentRowToEdit = None, currentEditedRow = [], rowToDeleteId = Null\<rparr>"

subsection \<open>Editing\<close>

definition handleEditClick :: "row \<Rightarrow> results_state \<Rightarrow> results_state" where
  "handleEditClick r s =
     s\<lparr>currentRowToEdit := Some r, currentEditedRow := r, editDialogOpen := True\<rparr>"

text \<open>The event carries \<open>event.target.name\<close> and \<open>event.target.value\<close>, a string.\<close>

definition handleFieldChange :: "string \<times> string \<Rightarrow> results_state \<Rightarrow> results_state" where
  "handleFieldChange ev s =
     (case ev of (nm, val) \<Rightarrow> s\<lparr>currentEditedRow := set_prop nm (Str val) (currentEditedRow s)\<rparr>)"

definition handleSaveEdit :: "results_state \<Rightarrow> results_state" where
  "handleSaveEdit s =
     s\<lparr>tableData :=
         map (\<lambda>r. if get r ''id'' = get (currentEditedRow s) ''id'' then currentEditedRow s else r)
           (tableData s),
       editDialogOpen := False, currentRowToEdit := None, currentEditedRow := []\<rparr>"

subsection \<open>Deleting\<close>

definition handleDeleteClick :: "scalar \<Rightarrow> results_state \<Rightarrow> results_state" where
  "handleDeleteClick rowId s = s\<lparr>rowToDeleteId := rowId, deleteDialogOpen := True\<rparr>"

definition handleConfirmDelete :: "results_state \<Rightarrow> results_state" where
  "handleConfirmDelete s =
     s\<lparr>tableData := filter (\<lambda>r. get r ''id'' \<noteq> rowToDeleteId s) (tableData s),
       deleteDialogOpen := False, rowToDeleteId := Null\<rparr>"

text \<open>
  Deleting the record with a given id, as the page does it: the row's delete button,
  then the Delete button of the confirmation dialog.
\<close>

definition deleteRecord :: "scalar \<Rightarrow> results_state \<Rightarrow> results_state" where
  "deleteRecord rowId s = handleConfirmDelete (handleDeleteClick rowId s)"

text \<open>\<open>confirmDeleteAll\<close> is the answer of \<open>window.confirm\<close>.\<close>

definition handleTableWiseDelete :: "bool \<Rightarrow> results_state \<Rightarrow> results_state" where
  "handleTableWiseDelete confirmDeleteAll s =
     (if \<not> confirmDeleteAll then s else s\<lparr>tableData := []\<rparr>)"

subsection \<open>Exporting\<close>

text \<open>
  What a download handler does to the page: an \<open>alert\<close>, or the download of a file
  with a name, a media type and a text. The handlers call no state setter; they
  return the state they were given. \<open>Papa.unparse\<close> and \<open>JSON.stringify\<close> are library
  functions, taken as parameters.
\<close>

datatype effect = Alert string | Download string string string

definition handleDownloadCSV ::
  "(row list \<Rightarrow> string) \<Rightarrow> results_state \<Rightarrow> results_state \<times> effect list" where
  "handleDownloadCSV unparse s =
     (if length (tableData s) = 0 then (s, [Alert ''No data to download.''])
      else (s, [Download ''results.csv'' ''text/csv;charset=utf-8;'' (unparse (tableData s))]))"

definition handleDownloadJSON ::
  "(row list \<Rightarrow> string) \<Rightarrow> results_state \<Rightarrow> results_state \<times> effect list" where
  "handleDownloadJSON stringify s =
     (if length (tableData s) = 0 then (s, [Alert ''No data to download.''])
      else (s, [Download ''results.json'' ''application/json;charset=utf-8;''
                  (stringify (tableData s))]))"

subsection \<open>Columns\<close>

text \<open>\<open>columns\<close> is computed in the body of the component, from the state of each render.\<close>

definition columns :: "results_state \<Rightarrow> string list" where
  "columns s =
     (if length (tableData s) > 0
      then filter (\<lambda>key. key \<noteq> ''id'') (keys (tableData s ! 0))
      else [])"

text \<open>
  The specification's wording of the same: the field names of the first record in
  their order, without \<open>id\<close>, and the empty list for an empty set.
\<close>

fun deriveColumns_spec :: "row list \<Rightarrow> string list" where
  "deriveColumns_spec [] = []"
| "deriveColumns_spec (first # _) = removeAll ''id'' (map fst first)"


section \<open>Facts about the string functions\<close>

lemma split_dot_not_Nil: "split_dot s \<noteq> []"
  by (induction s) (auto split: list.splits)

lemma split_dot_no_dot: "CHR ''.'' \<notin> set s \<Longrightarrow> split_dot s = [s]"
  by (induction s) auto

lemma length_split_dot: "length (split_dot s) = Suc (length (filter (\<lambda>c. c = CHR ''.'') s))"
  by (induction s) (auto split: list.splits)

text \<open>Joining the segments with dots gives the string back, and no segment has a dot.\<close>

lemma join_split_dot: "join ''.'' (split_dot s) = s"
proof (induction s)
  case Nil
  show ?case by simp
next
  case (Cons c cs)
  obtain w ws where ws: "split_dot cs = w # ws"
    using split_dot_not_Nil by (cases "split_dot cs") auto
  show ?case
  proof (cases "c = CHR ''.''")
    case True
    with Cons ws show ?thesis by simp
  next
    case False
    with Cons ws show ?thesis by (cases ws) auto
  qed
qed

lemma split_dot_segments: "w \<in> set (split_dot s) \<Longrightarrow> CHR ''.'' \<notin> set w"
  by (induction s arbitrary: w) (auto split: list.splits if_splits)

text \<open>The last segment is what follows the last dot.\<close>

lemma last_split_dot_append:
  "CHR ''.'' \<notin> set b \<Longrightarrow> last (split_dot (a @ CHR ''.'' # b)) = b"
proof (induction a)
  case Nil
  then show ?case by (simp add: split_dot_no_dot)
next
  case (Cons c a)
  show ?case
  proof (cases "c = CHR ''.''")
    case True
    with Cons show ?thesis by (simp add: split_dot_not_Nil)
  next
    case False
    obtain w ws where ws: "split_dot (a @ CHR ''.'' # b) = w # ws"
      using split_dot_not_Nil by (cases "split_dot (a @ CHR ''.'' # b)") auto
    have "length (split_dot (a @ CHR ''.'' # b)) \<ge> 2"
      by (simp add: length_split_dot)
    with ws have "ws \<noteq> []" by auto
    with Cons False ws show ?thesis by simp
  qed
qed


section \<open>Selecting a file\<close>

lemma slot_apply_setter: "slot st' (apply_setter st f s) = (if st' = st then f else slot st' s)"
  by (cases st; cases st') simp_all

lemma error_apply_setter: "error (apply_setter st f s) = error s"
  by (cases st) simp_all

lemma loading_apply_setter: "loading (apply_setter st f s) = loading s"
  by (cases st) simp_all

lemma slot_error_update: "slot st (s\<lparr>error := e\<rparr>) = slot st s"
  by (cases st) simp_all

lemma fileExtension_last: "fileExtension f = toLowerCase (last (split_dot (name f)))"
  by (simp add: fileExtension_def Let_def last_conv_nth split_dot_not_Nil)

lemma slot_handleFileChange_Some:
  "slot st (handleFileChange st allowedTypes (Some f) s) =
     (if fileExtension f \<in> set allowedTypes then Some f else None)"
  by (simp add: handleFileChange_def Let_def slot_apply_setter)

lemma error_handleFileChange_Some:
  "error (handleFileChange st allowedTypes (Some f) s) =
     (if fileExtension f \<in> set allowedTypes then [] else invalid_type_message allowedTypes)"
  by (simp add: handleFileChange_def Let_def error_apply_setter)

lemma loading_handleFileChange: "loading (handleFileChange st allowedTypes fo s) = loading s"
  by (simp add: handleFileChange_def Let_def loading_apply_setter split: option.splits)

text \<open>
  C1. A file offered to a slot fills the slot exactly when the lowercased last
  dot-delimited segment of its name is in the allowed list. When it is not, the slot
  is left empty and the error message lists the allowed extensions, joined by a comma
  and a space. The other slots and the loading flag are not touched, and an accepted
  file clears the error message.
\<close>

theorem handleFileChange_populates_iff_extension_allowed:
  "(slot st (handleFileChange st allowedTypes (Some f) s) = Some f
      \<longleftrightarrow> toLowerCase (last (split_dot (name f))) \<in> set allowedTypes)
   \<and> (toLowerCase (last (split_dot (name f))) \<notin> set allowedTypes \<longrightarrow>
        slot st (handleFileChange st allowedTypes (Some f) s) = None
        \<and> error (handleFileChange st allowedTypes (Some f) s)
            = ''Invalid file type for this slot. Allowed: '' @ join '', '' allowedTypes)
   \<and> (toLowerCase (last (split_dot (name f))) \<in> set allowedTypes \<longrightarrow>
        error (handleFileChange st allowedTypes (Some f) s) = [])
   \<and> (\<forall>st'. st' \<noteq> st \<longrightarrow>
        slot st' (handleFileChange st allowedTypes (Some f) s) = slot st' s)
   \<and> loading (handleFileChange st allowedTypes (Some f) s) = loading s"
  by (simp add: slot_handleFileChange_Some error_handleFileChange_Some fileExtension_last
      invalid_type_message_def)
    (simp add: handleFileChange_def Let_def slot_apply_setter loading_apply_setter slot_error_update)

text \<open>
  The witness: into the mandatory slot with \<open>pdf\<close> and \<open>docx\<close> allowed, \<open>report.DOCX\<close>
  is taken and \<open>photo.png\<close> is refused with a message that ends in \<open>pdf, docx\<close>.
\<close>

theorem handleFileChange_populates_iff_extension_allowed_witness:
  "slot setSofFile (handleFileChange setSofFile [''pdf'', ''docx'']
       (Some \<lparr>name = ''report.DOCX'', content = ''x''\<rparr>) initial_upload)
     = Some \<lparr>name = ''report.DOCX'', content = ''x''\<rparr>
   \<and> slot setSofFile (handleFileChange setSofFile [''pdf'', ''docx'']
       (Some \<lparr>name = ''photo.png'', content = ''x''\<rparr>) initial_upload) = None
   \<and> error (handleFileChange setSofFile [''pdf'', ''docx'']
       (Some \<lparr>name = ''photo.png'', content = ''x''\<rparr>) initial_upload)
     = ''Invalid file type for this slot. Allowed: pdf, docx''"
proof -
  have docx: "toLowerCase (last (split_dot ''report.DOCX'')) \<in> set [''pdf'', ''docx'']"
    by code_simp
  have png: "toLowerCase (last (split_dot ''photo.png'')) \<notin> set [''pdf'', ''docx'']"
    by code_simp
  show ?thesis
    using docx png
      handleFileChange_populates_iff_extension_allowed
        [of setSofFile "[''pdf'', ''docx'']" "\<lparr>name = ''report.DOCX'', content = ''x''\<rparr>"
          initial_upload]
      handleFileChange_populates_iff_extension_allowed
        [of setSofFile "[''pdf'', ''docx'']" "\<lparr>name = ''photo.png'', content = ''x''\<rparr>"
          initial_upload]
    by simp
qed

text \<open>
  C10. A name with no dot is its own extension: such a file is taken exactly when its
  whole lowercased name is in the allowed list. A name with dots is judged by what
  follows its last dot alone.
\<close>

theorem fileExtension_of_dotless_and_dotted_names:
  "(CHR ''.'' \<notin> set (name f) \<longrightarrow>
      fileExtension f = toLowerCase (name f)
      \<and> (slot st (handleFileChange st allowedTypes (Some f) s) = Some f
           \<longleftrightarrow> toLowerCase (name f) \<in> set allowedTypes))
   \<and> (CHR ''.'' \<notin> set ext \<longrightarrow> name f = base @ ''.'' @ ext \<longrightarrow>
        fileExtension f = toLowerCase ext
        \<and> (slot st (handleFileChange st allowedTypes (Some f) s) = Some f
             \<longleftrightarrow> toLowerCase ext \<in> set allowedTypes))"
  by (simp add: slot_handleFileChange_Some fileExtension_last split_dot_no_dot
      last_split_dot_append)

text \<open>
  The witness: a file named \<open>pdf\<close> goes into the mandatory slot, and \<open>a.tar.gz\<close> has
  the extension \<open>gz\<close>, so a slot that allows only \<open>tar\<close> refuses it.
\<close>

theorem fileExtension_of_dotless_and_dotted_names_witness:
  "fileExtension \<lparr>name = ''pdf'', content = ''x''\<rparr> = ''pdf''
   \<and> slot setSofFile (handleFileChange setSofFile (allowed_for setSofFile)
         (Some \<lparr>name = ''pdf'', content = ''x''\<rparr>) initial_upload)
       = Some \<lparr>name = ''pdf'', content = ''x''\<rparr>
   \<and> fileExtension \<lparr>name = ''a.tar.gz'', content = ''x''\<rparr> = ''gz''
   \<and> slot setCpFile (handleFileChange setCpFile [''tar'']
         (Some \<lparr>name = ''a.tar.gz'', content = ''x''\<rparr>) initial_upload)
       \<noteq> Some \<lparr>name = ''a.tar.gz'', content = ''x''\<rparr>"
proof -
  have pdf: "toLowerCase ''pdf'' = ''pdf''" and gz: "toLowerCase ''gz'' = ''gz''"
    by code_simp+
  show ?thesis
    using pdf gz
      fileExtension_of_dotless_and_dotted_names
        [of "\<lparr>name = ''pdf'', content = ''x''\<rparr>" setSofFile "allowed_for setSofFile"
          initial_upload "[]" "[]"]
      fileExtension_of_dotless_and_dotted_names
        [of "\<lparr>name = ''a.tar.gz'', content = ''x''\<rparr>" setCpFile "[''tar'']"
          initial_upload "''gz''" "''a.tar''"]
    by simp
qed


section \<open>Submitting\<close>

lemma handleSubmit_begin_None:
  "sofFile s = None \<Longrightarrow> handleSubmit_begin s = (s\<lparr>error := missing_sof_message\<rparr>, None)"
  by (simp add: handleSubmit_begin_def)

lemma handleSubmit_begin_Some:
  "sofFile s = Some sof \<Longrightarrow>
   handleSubmit_begin s =
     (s\<lparr>loading := True, error := []\<rparr>, Some (build_formData sof (cpFile s) (additionalFile s)))"
  by (simp add: handleSubmit_begin_def)

text \<open>
  C2. Called with no Statement of Facts file, \<open>handleSubmit\<close> sets the error message
  that asks for it and returns before \<open>fetch\<close>: no request is sent, and no other cell of
  the state changes.
\<close>

theorem handleSubmit_without_sof_sends_nothing:
  "sofFile s = None \<longrightarrow>
     handleSubmit_begin s
       = (s\<lparr>error := ''Please upload the Statement of Facts document (SOF).''\<rparr>, None)"
  by (simp add: handleSubmit_begin_None missing_sof_message_def)

theorem handleSubmit_without_sof_sends_nothing_witness:
  "handleSubmit_begin initial_upload
     = (initial_upload\<lparr>error := ''Please upload the Statement of Facts document (SOF).''\<rparr>, None)"
  using handleSubmit_without_sof_sends_nothing [of initial_upload]
  by (simp add: initial_upload_def)

lemma map_of_build_formData:
  "map_of (build_formData sof cp additional) ''sof_file'' = Some sof"
  "map_of (build_formData sof cp additional) ''cp_file'' = cp"
  "map_of (build_formData sof cp additional) ''additional_file'' = additional"
  by (simp_all add: build_formData_def split: option.splits)

lemma fields_build_formData:
  "distinct (map fst (build_formData sof cp additional))"
  "set (map fst (build_formData sof cp additional))
     \<subseteq> {''sof_file'', ''cp_file'', ''additional_file''}"
  "length (build_formData sof cp additional)
     = 1 + (if cp = None then 0 else 1) + (if additional = None then 0 else 1)"
  by (auto simp add: build_formData_def split: option.splits)

text \<open>
  C8. With a Statement of Facts file chosen, \<open>handleSubmit\<close> sends a payload that holds
  that file under \<open>sof_file\<close>, the Charter Party file under \<open>cp_file\<close> exactly when
  one is chosen and the additional file under \<open>additional_file\<close> exactly when one
  is chosen. The field names are distinct, an empty optional slot has no part at all,
  and with both optional slots empty the payload is the one part \<open>sof_file\<close>.
\<close>

theorem handleSubmit_payload_parts:
  "sofFile s = Some sof \<longrightarrow>
     (\<exists>payload.
        handleSubmit_begin s = (s\<lparr>loading := True, error := []\<rparr>, Some payload)
        \<and> map_of payload ''sof_file'' = Some sof
        \<and> map_of payload ''cp_file'' = cpFile s
        \<and> map_of payload ''additional_file'' = additionalFile s
        \<and> distinct (map fst payload)
        \<and> set (map fst payload) \<subseteq> {''sof_file'', ''cp_file'', ''additional_file''}
        \<and> length payload
            = 1 + (if cpFile s = None then 0 else 1) + (if additionalFile s = None then 0 else 1)
        \<and> (cpFile s = None \<and> additionalFile s = None \<longrightarrow> payload = [(''sof_file'', sof)]))"
proof
  assume sof: "sofFile s = Some sof"
  let ?p = "build_formData sof (cpFile s) (additionalFile s)"
  have "handleSubmit_begin s = (s\<lparr>loading := True, error := []\<rparr>, Some ?p)"
    using sof by (rule handleSubmit_begin_Some)
  moreover have "cpFile s = None \<and> additionalFile s = None \<longrightarrow> ?p = [(''sof_file'', sof)]"
    by (simp add: build_formData_def)
  ultimately show "\<exists>payload.
        handleSubmit_begin s = (s\<lparr>loading := True, error := []\<rparr>, Some payload)
        \<and> map_of payload ''sof_file'' = Some sof
        \<and> map_of payload ''cp_file'' = cpFile s
        \<and> map_of payload ''additional_file'' = additionalFile s
        \<and> distinct (map fst payload)
        \<and> set (map fst payload) \<subseteq> {''sof_file'', ''cp_file'', ''additional_file''}
        \<and> length payload
            = 1 + (if cpFile s = None then 0 else 1) + (if additionalFile s = None then 0 else 1)
        \<and> (cpFile s = None \<and> additionalFile s = None \<longrightarrow> payload = [(''sof_file'', sof)])"
    using map_of_build_formData [of sof "cpFile s" "additionalFile s"]
      fields_build_formData [of sof "cpFile s" "additionalFile s"]
    by blast
qed

text \<open>
  The witness: with only the mandatory file the payload is that one part; with the
  additional file as well it has two parts and none named \<open>cp_file\<close>.
\<close>

theorem handleSubmit_payload_parts_witness:
  "snd (handleSubmit_begin (initial_upload\<lparr>sofFile := Some \<lparr>name = ''sof.pdf'', content = ''x''\<rparr>\<rparr>))
     = Some [(''sof_file'', \<lparr>name = ''sof.pdf'', content = ''x''\<rparr>)]
   \<and> (\<exists>payload.
        snd (handleSubmit_begin
          (initial_upload\<lparr>sofFile := Some \<lparr>name = ''sof.pdf'', content = ''x''\<rparr>,
                          additionalFile := Some \<lparr>name = ''notes.txt'', content = ''y''\<rparr>\<rparr>))
          = Some payload
        \<and> length payload = 2
        \<and> map_of payload ''cp_file'' = None
        \<and> map_of payload ''additional_file'' = Some \<lparr>name = ''notes.txt'', content = ''y''\<rparr>)"
  using handleSubmit_payload_parts
      [of "initial_upload\<lparr>sofFile := Some \<lparr>name = ''sof.pdf'', content = ''x''\<rparr>\<rparr>"
        "\<lparr>name = ''sof.pdf'', content = ''x''\<rparr>"]
    handleSubmit_payload_parts
      [of "initial_upload\<lparr>sofFile := Some \<lparr>name = ''sof.pdf'', content = ''x''\<rparr>,
                        additionalFile := Some \<lparr>name = ''notes.txt'', content = ''y''\<rparr>\<rparr>"
        "\<lparr>name = ''sof.pdf'', content = ''x''\<rparr>"]
  by (auto simp add: initial_upload_def)


section \<open>Submitting while a request is pending\<close>

lemma loading_handleSubmit_resume: "loading (fst (handleSubmit_resume out s)) = False"
  by (simp add: handleSubmit_resume_def split: sum.splits)

text \<open>
  \<open>handleSubmit\<close> does not read \<open>loading\<close>: called in any state with a Statement of
  Facts file, submitting or not, it sends a request with the same payload.
\<close>

lemma handleSubmit_begin_does_not_read_loading:
  "snd (handleSubmit_begin (s\<lparr>loading := b\<rparr>)) = snd (handleSubmit_begin s)"
  by (simp add: handleSubmit_begin_def split: option.splits)



section \<open>The answer of the extraction service\<close>

lemma try_block_not_ok: "\<not> ok r \<Longrightarrow> \<exists>msg. try_block (Responded r) = Inl msg"
  by (auto split: parsed.splits sum.splits)

text \<open>
  Whatever a response outside the range 200 to 299 holds, the component leaves the
  submitting state, keeps its files and makes no navigation.
\<close>

lemma handleSubmit_resume_not_ok:
  "\<not> ok r \<Longrightarrow>
   loading (fst (handleSubmit_resume (Responded r) s)) = False
   \<and> snd (handleSubmit_resume (Responded r) s) = None
   \<and> sofFile (fst (handleSubmit_resume (Responded r) s)) = sofFile s
   \<and> cpFile (fst (handleSubmit_resume (Responded r) s)) = cpFile s
   \<and> additionalFile (fst (handleSubmit_resume (Responded r) s)) = additionalFile s"
  using try_block_not_ok [of r] by (auto simp add: handleSubmit_resume_def)

text \<open>
  When the body of such a response is a JSON object, the message holds the status and
  the object's \<open>detail\<close>, or the status text when there is no \<open>detail\<close> or a falsy one.
\<close>

lemma handleSubmit_resume_not_ok_object:
  "\<not> ok r \<Longrightarrow> json_body r = Parsed (JObj kvs) \<Longrightarrow>
   error (fst (handleSubmit_resume (Responded r) s)) =
     ''Failed to process documents: Server error: '' @ string_of_nat (status r) @ '' - ''
       @ (case map_of kvs ''detail'' of
            Some d \<Rightarrow> if truthy (Some d) then js_to_string d else statusText r
          | None \<Rightarrow> statusText r)"
  by (simp add: handleSubmit_resume_def server_error_message_def)

lemma handleSubmit_resume_422_example:
  "handleSubmit_resume
     (Responded \<lparr>status = 422, statusText = ''Unprocessable Entity'',
                 json_body = Parsed (JObj [(''detail'', JStr ''SOF file is not a PDF'')])\<rparr>)
     (initial_upload\<lparr>loading := True\<rparr>)
   = (initial_upload
        \<lparr>error := ''Failed to process documents: Server error: 422 - SOF file is not a PDF''\<rparr>,
      None)"
  by code_simp

text \<open>
  C4. A response with status 500 and no body: \<open>response.json()\<close> rejects, the \<open>catch\<close>
  block takes the parser's message, and the error shown holds neither the status nor
  the status text. The component does return to idle and makes no navigation.
\<close>

theorem error_response_without_json_body_loses_status:
  "handleSubmit_resume
     (Responded \<lparr>status = 500, statusText = ''Internal Server Error'',
                 json_body = SyntaxError ''Unexpected end of JSON input''\<rparr>)
     (initial_upload\<lparr>sofFile := Some \<lparr>name = ''sof.pdf'', content = ''x''\<rparr>, loading := True\<rparr>)
   = (initial_upload\<lparr>sofFile := Some \<lparr>name = ''sof.pdf'', content = ''x''\<rparr>,
        error := ''Failed to process documents: Unexpected end of JSON input''\<rparr>, None)
   \<and> \<not> ok \<lparr>status = 500, statusText = ''Internal Server Error'',
                 json_body = SyntaxError ''Unexpected end of JSON input''\<rparr>
   \<and> \<not> sublist (string_of_nat 500) ''Failed to process documents: Unexpected end of JSON input''
   \<and> \<not> sublist ''Internal Server Error''
         ''Failed to process documents: Unexpected end of JSON input''"
  by code_simp


section \<open>Records and their properties\<close>

text \<open>Writing a property changes what that property reads, and nothing else.\<close>

lemma map_of_insert_index:
  "map_of (insert_index k v r) k' = (if k' = k then Some v else map_of r k')"
  by (induction r) auto

lemma map_of_overwrite_same:
  "k \<in> set (keys r) \<Longrightarrow>
   map_of (map (\<lambda>(k', v'). if k' = k then (k', v) else (k', v')) r) k = Some v"
proof (induction r)
  case Nil
  then show ?case by (simp add: keys_def)
next
  case (Cons kv r)
  obtain k1 v1 where kv: "kv = (k1, v1)" by (cases kv)
  show ?case
  proof (cases "k1 = k")
    case True
    with kv show ?thesis by simp
  next
    case False
    with Cons kv show ?thesis by (simp add: keys_def)
  qed
qed

lemma map_of_overwrite_other:
  "k'' \<noteq> k \<Longrightarrow>
   map_of (map (\<lambda>(k', v'). if k' = k then (k', v) else (k', v')) r) k'' = map_of r k''"
proof (induction r)
  case Nil
  show ?case by simp
next
  case (Cons kv r)
  obtain k1 v1 where kv: "kv = (k1, v1)" by (cases kv)
  show ?case
  proof (cases "k1 = k")
    case True
    with Cons kv show ?thesis by simp
  next
    case False
    with Cons kv show ?thesis by simp
  qed
qed

lemma get_set_prop: "get (set_prop k v r) k' = (if k' = k then v else get r k')"
proof (cases "k \<in> set (keys r)")
  case True
  then show ?thesis
    by (simp add: get_def set_prop_def map_of_overwrite_same map_of_overwrite_other)
next
  case False
  then have "map_of r k = None"
    by (simp add: keys_def map_of_eq_None_iff)
  with False show ?thesis
    by (simp add: get_def set_prop_def map_of_insert_index map_add_def split: option.splits)
qed

lemma keys_insert_index: "set (keys (insert_index k v r)) = insert k (set (keys r))"
proof (induction r)
  case Nil
  show ?case by (simp add: keys_def)
next
  case (Cons kv r)
  obtain k' v' where kv: "kv = (k', v')" by (cases kv)
  show ?case
  proof (cases "is_array_index k' \<and> index_value k' < index_value k")
    case True
    with Cons kv show ?thesis by (auto simp add: keys_def)
  next
    case False
    with kv show ?thesis by (auto simp add: keys_def)
  qed
qed

lemma keys_overwrite:
  "keys (map (\<lambda>(k', v'). if k' = k then (k', v) else (k', v')) r) = keys r"
  unfolding keys_def by (induction r) auto

lemma keys_set_prop: "set (keys (set_prop k v r)) = insert k (set (keys r))"
proof (cases "k \<in> set (keys r)")
  case True
  then show ?thesis by (auto simp add: set_prop_def keys_overwrite)
next
  case False
  show ?thesis
  proof (cases "is_array_index k")
    case True
    with False show ?thesis by (simp add: set_prop_def keys_insert_index)
  next
    case nonindex: False
    with False show ?thesis by (simp add: set_prop_def) (simp add: keys_def)
  qed
qed

lemma keys_set_prop_existing: "k \<in> set (keys r) \<Longrightarrow> keys (set_prop k v r) = keys r"
  by (simp add: set_prop_def keys_overwrite)

text \<open>
  Two facts on lists whose elements are told apart by a key \<open>f\<close>: mapping the element
  with the key of position \<open>i\<close> to \<open>y\<close> is an update at \<open>i\<close>, and filtering that key
  out removes position \<open>i\<close>.
\<close>

lemma map_replace_distinct:
  assumes "distinct (map f xs)" and "i < length xs"
  shows "map (\<lambda>x. if f x = f (xs ! i) then y else x) xs = xs[i := y]"
proof (rule nth_equalityI)
  show "length (map (\<lambda>x. if f x = f (xs ! i) then y else x) xs) = length (xs[i := y])"
    by simp
next
  fix j
  assume "j < length (map (\<lambda>x. if f x = f (xs ! i) then y else x) xs)"
  then have j: "j < length xs" by simp
  have "f (xs ! j) = f (xs ! i) \<longleftrightarrow> j = i"
    using assms j nth_eq_iff_index_eq [of "map f xs" j i] by simp
  with j assms show "map (\<lambda>x. if f x = f (xs ! i) then y else x) xs ! j = xs[i := y] ! j"
    by (auto simp add: nth_list_update)
qed

lemma filter_remove_distinct:
  "distinct (map f xs) \<Longrightarrow> i < length xs \<Longrightarrow>
   filter (\<lambda>x. f x \<noteq> f (xs ! i)) xs = take i xs @ drop (Suc i) xs"
proof (induction xs arbitrary: i)
  case Nil
  then show ?case by simp
next
  case (Cons x xs)
  show ?case
  proof (cases i)
    case 0
    from Cons.prems(1) have "f x \<notin> f ` set xs" by simp
    then have "\<forall>z\<in>set xs. f z \<noteq> f x" by (metis imageI)
    then have "filter (\<lambda>z. f z \<noteq> f x) xs = xs"
      by (simp add: filter_id_conv)
    with 0 show ?thesis by simp
  next
    case (Suc j)
    with Cons.prems have j: "j < length xs" and d: "distinct (map f xs)" by simp_all
    have "f x \<noteq> f (xs ! j)"
      using Cons.prems(1) j by auto
    with Suc Cons.IH [OF d j] show ?thesis by simp
  qed
qed


section \<open>Editing a record\<close>

lemma tableData_handleSaveEdit:
  "tableData (handleSaveEdit s) =
     map (\<lambda>r. if get r ''id'' = get (currentEditedRow s) ''id'' then currentEditedRow s else r)
       (tableData s)"
  by (simp add: handleSaveEdit_def)

lemma currentEditedRow_after_change:
  "currentEditedRow (handleFieldChange (field, val) (handleEditClick r s)) = set_prop field (Str val) r"
  by (simp add: handleFieldChange_def handleEditClick_def)

lemma tableData_after_change:
  "tableData (handleFieldChange (field, val) (handleEditClick r s)) = tableData s"
  by (simp add: handleFieldChange_def handleEditClick_def)

lemma handleSaveEdit_at_index:
  assumes "distinct (map (\<lambda>r. get r ''id'') (tableData s))" and "i < length (tableData s)"
    and "get (tableData s ! i) ''id'' = get (currentEditedRow s) ''id''"
  shows "tableData (handleSaveEdit s) = (tableData s)[i := currentEditedRow s]"
  using map_replace_distinct [OF assms(1,2), of "currentEditedRow s"] assms(3)
  by (simp add: tableData_handleSaveEdit)

lemma handleSaveEdit_no_match:
  assumes "\<forall>r\<in>set (tableData s). get r ''id'' \<noteq> get (currentEditedRow s) ''id''"
  shows "tableData (handleSaveEdit s) = tableData s"
proof -
  have "map (\<lambda>r. if get r ''id'' = get (currentEditedRow s) ''id'' then currentEditedRow s else r)
          (tableData s) = map (\<lambda>r. r) (tableData s)"
    using assms by (intro map_cong) auto
  then show ?thesis by (simp add: tableData_handleSaveEdit)
qed

text \<open>
  C5. In a table whose records have distinct ids, opening the edit dialog on the
  record at position \<open>i\<close>, changing one field other than \<open>id\<close> (the dialog has text
  fields for the columns only, and \<open>id\<close> is never a column) and saving gives the table
  with position \<open>i\<close> replaced by the edited copy: the length, the order and every
  other record are as before, and the edited copy reads like the old record at every
  field but the changed one. More generally, saving replaces the record whose \<open>id\<close> is
  the buffer's by the buffer. When no record has the buffer's \<open>id\<close>, saving leaves the
  table as it is.
\<close>

theorem handleSaveEdit_replaces_one_record:
  "(distinct (map (\<lambda>r. get r ''id'') (tableData s)) \<longrightarrow> i < length (tableData s) \<longrightarrow>
      field \<noteq> ''id'' \<longrightarrow>
        tableData (handleSaveEdit (handleFieldChange (field, val) (handleEditClick (tableData s ! i) s)))
          = (tableData s)[i := set_prop field (Str val) (tableData s ! i)]
        \<and> (\<forall>k. get (set_prop field (Str val) (tableData s ! i)) k
                 = (if k = field then Str val else get (tableData s ! i) k))
        \<and> set (keys (set_prop field (Str val) (tableData s ! i)))
            = insert field (set (keys (tableData s ! i))))
   \<and> (distinct (map (\<lambda>r. get r ''id'') (tableData s)) \<longrightarrow> i < length (tableData s) \<longrightarrow>
        get (tableData s ! i) ''id'' = get (currentEditedRow s) ''id'' \<longrightarrow>
        tableData (handleSaveEdit s) = (tableData s)[i := currentEditedRow s])
   \<and> ((\<forall>r\<in>set (tableData s). get r ''id'' \<noteq> get (currentEditedRow s) ''id'') \<longrightarrow>
        tableData (handleSaveEdit s) = tableData s)"
proof (intro conjI impI)
  assume d: "distinct (map (\<lambda>r. get r ''id'') (tableData s))" and i: "i < length (tableData s)"
    and f: "field \<noteq> ''id''"
  let ?s1 = "handleFieldChange (field, val) (handleEditClick (tableData s ! i) s)"
  have "get (tableData ?s1 ! i) ''id'' = get (currentEditedRow ?s1) ''id''"
    using f by (simp add: tableData_after_change currentEditedRow_after_change get_set_prop)
  moreover have "distinct (map (\<lambda>r. get r ''id'') (tableData ?s1))" and "i < length (tableData ?s1)"
    using d i by (simp_all add: tableData_after_change)
  ultimately have "tableData (handleSaveEdit ?s1) = (tableData ?s1)[i := currentEditedRow ?s1]"
    by (intro handleSaveEdit_at_index)
  then show "tableData (handleSaveEdit ?s1) = (tableData s)[i := set_prop field (Str val) (tableData s ! i)]"
    by (simp add: tableData_after_change currentEditedRow_after_change)
next
  show "\<forall>k. get (set_prop field (Str val) (tableData s ! i)) k
                 = (if k = field then Str val else get (tableData s ! i) k)"
    by (simp add: get_set_prop)
next
  show "set (keys (set_prop field (Str val) (tableData s ! i)))
            = insert field (set (keys (tableData s ! i)))"
    by (rule keys_set_prop)
next
  assume "distinct (map (\<lambda>r. get r ''id'') (tableData s))" and "i < length (tableData s)"
    and "get (tableData s ! i) ''id'' = get (currentEditedRow s) ''id''"
  then show "tableData (handleSaveEdit s) = (tableData s)[i := currentEditedRow s]"
    by (rule handleSaveEdit_at_index)
next
  assume "\<forall>r\<in>set (tableData s). get r ''id'' \<noteq> get (currentEditedRow s) ''id''"
  then show "tableData (handleSaveEdit s) = tableData s"
    by (rule handleSaveEdit_no_match)
qed

text \<open>
  The witness: in a table of three records the port of the second is changed, and a
  buffer with an id that no record has changes nothing.
\<close>

theorem handleSaveEdit_replaces_one_record_witness:
  "tableData (handleSaveEdit (handleFieldChange (''port'', ''Goa'')
      (handleEditClick [(''id'', Num 2), (''vessel'', Str ''Borea''), (''port'', Str ''Kochi'')]
        (initial_results (Some
          [[(''id'', Num 1), (''vessel'', Str ''Aurora''), (''port'', Str ''Kandla'')],
           [(''id'', Num 2), (''vessel'', Str ''Borea''), (''port'', Str ''Kochi'')],
           [(''id'', Num 3), (''vessel'', Str ''Ceres''), (''port'', Str ''Mumbai'')]])))))
     = [[(''id'', Num 1), (''vessel'', Str ''Aurora''), (''port'', Str ''Kandla'')],
        [(''id'', Num 2), (''vessel'', Str ''Borea''), (''port'', Str ''Goa'')],
        [(''id'', Num 3), (''vessel'', Str ''Ceres''), (''port'', Str ''Mumbai'')]]
   \<and> tableData (handleSaveEdit
        ((initial_results (Some
          [[(''id'', Num 1), (''vessel'', Str ''Aurora''), (''port'', Str ''Kandla'')],
           [(''id'', Num 2), (''vessel'', Str ''Borea''), (''port'', Str ''Kochi'')]]))
         \<lparr>currentEditedRow := [(''id'', Num 9), (''vessel'', Str ''Ghost'')]\<rparr>))
     = [[(''id'', Num 1), (''vessel'', Str ''Aurora''), (''port'', Str ''Kandla'')],
        [(''id'', Num 2), (''vessel'', Str ''Borea''), (''port'', Str ''Kochi'')]]"
proof -
  let ?r1 = "[(''id'', Num 1), (''vessel'', Str ''Aurora''), (''port'', Str ''Kandla'')]"
  let ?r2 = "[(''id'', Num 2), (''vessel'', Str ''Borea''), (''port'', Str ''Kochi'')]"
  let ?r3 = "[(''id'', Num 3), (''vessel'', Str ''Ceres''), (''port'', Str ''Mumbai'')]"
  let ?s = "initial_results (Some [?r1, ?r2, ?r3])"
  let ?t = "(initial_results (Some [?r1, ?r2]))\<lparr>currentEditedRow := [(''id'', Num 9), (''vessel'', Str ''Ghost'')]\<rparr>"
  have td: "tableData ?s = [?r1, ?r2, ?r3]" "tableData ?t = [?r1, ?r2]"
    by (simp_all add: initial_results_def)
  have d: "distinct (map (\<lambda>r. get r ''id'') (tableData ?s))"
    by (simp add: td get_def)
  have i: "1 < length (tableData ?s)" and f: "''port'' \<noteq> ''id''"
    by (simp_all add: td)
  have upd: "set_prop ''port'' (Str ''Goa'') ?r2
               = [(''id'', Num 2), (''vessel'', Str ''Borea''), (''port'', Str ''Goa'')]"
    by code_simp
  have nomatch: "\<forall>r\<in>set (tableData ?t). get r ''id'' \<noteq> get (currentEditedRow ?t) ''id''"
    by (simp add: td get_def)
  have "tableData (handleSaveEdit (handleFieldChange (''port'', ''Goa'')
          (handleEditClick (tableData ?s ! 1) ?s)))
        = (tableData ?s)[1 := set_prop ''port'' (Str ''Goa'') (tableData ?s ! 1)]"
    using handleSaveEdit_replaces_one_record [of ?s 1 "''port''" "''Goa''"] d i f by blast
  moreover have "tableData (handleSaveEdit ?t) = tableData ?t"
    using handleSaveEdit_replaces_one_record [of ?t 0 "''port''" "''Goa''"] nomatch by blast
  ultimately show ?thesis
    by (simp add: td upd)
qed


section \<open>Deleting a record\<close>

lemma tableData_deleteRecord:
  "tableData (deleteRecord rowId s) = filter (\<lambda>r. get r ''id'' \<noteq> rowId) (tableData s)"
  by (simp add: deleteRecord_def handleConfirmDelete_def handleDeleteClick_def)

lemma deleteRecord_twice: "deleteRecord rowId (deleteRecord rowId s) = deleteRecord rowId s"
  by (simp add: deleteRecord_def handleConfirmDelete_def handleDeleteClick_def)

text \<open>
  C6. After deleting by id no record with that id is left; what is left is a
  subsequence of the old table, so the order is kept, and it holds every record with
  another id. With distinct ids and the id at position \<open>i\<close>, the result is the table
  without position \<open>i\<close>. Deleting an id that no record has leaves the table as it is,
  and deleting the same id a second time changes nothing of the state.
\<close>

theorem deleteRecord_removes_matching_record:
  "(\<forall>r\<in>set (tableData (deleteRecord rowId s)). get r ''id'' \<noteq> rowId)
   \<and> subseq (tableData (deleteRecord rowId s)) (tableData s)
   \<and> (\<forall>r\<in>set (tableData s). get r ''id'' \<noteq> rowId \<longrightarrow> r \<in> set (tableData (deleteRecord rowId s)))
   \<and> (distinct (map (\<lambda>r. get r ''id'') (tableData s)) \<longrightarrow> i < length (tableData s) \<longrightarrow>
        get (tableData s ! i) ''id'' = rowId \<longrightarrow>
        tableData (deleteRecord rowId s) = take i (tableData s) @ drop (Suc i) (tableData s))
   \<and> ((\<forall>r\<in>set (tableData s). get r ''id'' \<noteq> rowId) \<longrightarrow>
        tableData (deleteRecord rowId s) = tableData s)
   \<and> deleteRecord rowId (deleteRecord rowId s) = deleteRecord rowId s"
proof (intro conjI impI)
  show "\<forall>r\<in>set (tableData (deleteRecord rowId s)). get r ''id'' \<noteq> rowId"
    by (simp add: tableData_deleteRecord)
next
  show "subseq (tableData (deleteRecord rowId s)) (tableData s)"
    by (simp add: tableData_deleteRecord)
next
  show "\<forall>r\<in>set (tableData s). get r ''id'' \<noteq> rowId \<longrightarrow> r \<in> set (tableData (deleteRecord rowId s))"
    by (simp add: tableData_deleteRecord)
next
  assume "distinct (map (\<lambda>r. get r ''id'') (tableData s))" and "i < length (tableData s)"
    and "get (tableData s ! i) ''id'' = rowId"
  then show "tableData (deleteRecord rowId s) = take i (tableData s) @ drop (Suc i) (tableData s)"
    using filter_remove_distinct [of "\<lambda>r. get r ''id''" "tableData s" i]
    by (simp add: tableData_deleteRecord)
next
  assume "\<forall>r\<in>set (tableData s). get r ''id'' \<noteq> rowId"
  then show "tableData (deleteRecord rowId s) = tableData s"
    by (simp add: tableData_deleteRecord filter_id_conv)
next
  show "deleteRecord rowId (deleteRecord rowId s) = deleteRecord rowId s"
    by (rule deleteRecord_twice)
qed

text \<open>
  The witness: from three records the one with id 2 is deleted, and deleting the
  absent id 7 keeps all three.
\<close>

theorem deleteRecord_removes_matching_record_witness:
  "tableData (deleteRecord (Num 2) (initial_results (Some
      [[(''id'', Num 1), (''vessel'', Str ''Aurora'')],
       [(''id'', Num 2), (''vessel'', Str ''Borea'')],
       [(''id'', Num 3), (''vessel'', Str ''Ceres'')]])))
     = [[(''id'', Num 1), (''vessel'', Str ''Aurora'')], [(''id'', Num 3), (''vessel'', Str ''Ceres'')]]
   \<and> tableData (deleteRecord (Num 7) (initial_results (Some
      [[(''id'', Num 1), (''vessel'', Str ''Aurora'')],
       [(''id'', Num 2), (''vessel'', Str ''Borea'')],
       [(''id'', Num 3), (''vessel'', Str ''Ceres'')]])))
     = [[(''id'', Num 1), (''vessel'', Str ''Aurora'')],
        [(''id'', Num 2), (''vessel'', Str ''Borea'')],
        [(''id'', Num 3), (''vessel'', Str ''Ceres'')]]"
proof -
  let ?s = "initial_results (Some
      [[(''id'', Num 1), (''vessel'', Str ''Aurora'')],
       [(''id'', Num 2), (''vessel'', Str ''Borea'')],
       [(''id'', Num 3), (''vessel'', Str ''Ceres'')]])"
  have td: "tableData ?s =
      [[(''id'', Num 1), (''vessel'', Str ''Aurora'')],
       [(''id'', Num 2), (''vessel'', Str ''Borea'')],
       [(''id'', Num 3), (''vessel'', Str ''Ceres'')]]"
    by (simp add: initial_results_def)
  have d: "distinct (map (\<lambda>r. get r ''id'') (tableData ?s))"
    and i: "1 < length (tableData ?s)"
    and m: "get (tableData ?s ! 1) ''id'' = Num 2"
    and absent: "\<forall>r\<in>set (tableData ?s). get r ''id'' \<noteq> Num 7"
    by (simp_all add: td get_def)
  have "tableData (deleteRecord (Num 2) ?s) = take 1 (tableData ?s) @ drop (Suc 1) (tableData ?s)"
    using deleteRecord_removes_matching_record [of "Num 2" ?s 1] d i m by blast
  moreover have "tableData (deleteRecord (Num 7) ?s) = tableData ?s"
    using deleteRecord_removes_matching_record [of "Num 7" ?s 0] absent by blast
  ultimately show ?thesis by (simp add: td)
qed


section \<open>The columns\<close>

lemma columns_eq_spec: "columns s = deriveColumns_spec (tableData s)"
proof (cases "tableData s")
  case Nil
  then show ?thesis by (simp add: columns_def)
next
  case (Cons first rest)
  have "filter (\<lambda>key. key \<noteq> ''id'') (map fst first) = removeAll ''id'' (map fst first)"
    by (induction first) auto
  with Cons show ?thesis by (simp add: columns_def keys_def)
qed

text \<open>
  C7. The columns are the field names of the first record, in their order, without
  \<open>id\<close>, and the empty list for an empty table. They are a function of the table of
  the current state: after a delete, a saved edit, a confirmed clearing or the mount
  with delivered records, they are derived from the table as it then is.
\<close>

theorem columns_are_first_record_fields_without_id:
  "columns s = deriveColumns_spec (tableData s)
   \<and> (tableData s = [] \<longrightarrow> columns s = [])
   \<and> (\<forall>first rest. tableData s = first # rest \<longrightarrow>
         columns s = filter (\<lambda>k. k \<noteq> ''id'') (keys first))
   \<and> ''id'' \<notin> set (columns s)
   \<and> columns (deleteRecord rowId s)
       = deriveColumns_spec (filter (\<lambda>r. get r ''id'' \<noteq> rowId) (tableData s))
   \<and> columns (handleSaveEdit s) = deriveColumns_spec (tableData (handleSaveEdit s))
   \<and> columns (handleTableWiseDelete True s) = []
   \<and> columns (initial_results (Some records)) = deriveColumns_spec records"
proof (intro conjI)
  show "columns s = deriveColumns_spec (tableData s)"
    by (rule columns_eq_spec)
  show "tableData s = [] \<longrightarrow> columns s = []"
    by (simp add: columns_def)
  show "\<forall>first rest. tableData s = first # rest \<longrightarrow>
         columns s = filter (\<lambda>k. k \<noteq> ''id'') (keys first)"
    by (simp add: columns_def)
  show "''id'' \<notin> set (columns s)"
    by (simp add: columns_def)
  show "columns (deleteRecord rowId s)
       = deriveColumns_spec (filter (\<lambda>r. get r ''id'' \<noteq> rowId) (tableData s))"
    by (simp add: columns_eq_spec tableData_deleteRecord)
  show "columns (handleSaveEdit s) = deriveColumns_spec (tableData (handleSaveEdit s))"
    by (rule columns_eq_spec)
  show "columns (handleTableWiseDelete True s) = []"
    by (simp add: columns_def handleTableWiseDelete_def)
  show "columns (initial_results (Some records)) = deriveColumns_spec records"
    by (simp add: columns_eq_spec initial_results_def)
qed

text \<open>
  The witness: the first record has the fields \<open>vessel\<close>, \<open>id\<close>, \<open>port\<close> and the second
  \<open>id\<close>, \<open>cargo\<close>; the columns are \<open>vessel\<close>, \<open>port\<close>, and once the first record is
  deleted they are \<open>cargo\<close>.
\<close>

theorem columns_are_first_record_fields_without_id_witness:
  "columns (initial_results (Some
      [[(''vessel'', Str ''Aurora''), (''id'', Num 1), (''port'', Str ''Kandla'')],
       [(''id'', Num 2), (''cargo'', Str ''Coal'')]])) = [''vessel'', ''port'']
   \<and> columns (deleteRecord (Num 1) (initial_results (Some
      [[(''vessel'', Str ''Aurora''), (''id'', Num 1), (''port'', Str ''Kandla'')],
       [(''id'', Num 2), (''cargo'', Str ''Coal'')]]))) = [''cargo'']
   \<and> columns (initial_results None) = []"
proof -
  let ?s = "initial_results (Some
      [[(''vessel'', Str ''Aurora''), (''id'', Num 1), (''port'', Str ''Kandla'')],
       [(''id'', Num 2), (''cargo'', Str ''Coal'')]])"
  have td: "tableData ?s =
      [[(''vessel'', Str ''Aurora''), (''id'', Num 1), (''port'', Str ''Kandla'')],
       [(''id'', Num 2), (''cargo'', Str ''Coal'')]]"
    and e: "tableData (initial_results None) = []"
    by (simp_all add: initial_results_def)
  show ?thesis
    using columns_are_first_record_fields_without_id [of ?s "Num 1" "[]"]
      columns_are_first_record_fields_without_id [of "initial_results None" "Num 1" "[]"]
    by (simp add: td e keys_def get_def)
qed


section \<open>Exporting\<close>

text \<open>
  C9. With an empty table, both download handlers show the alert
  \<open>No data to download.\<close>, start no download and leave the state as it is. With a
  table that is not empty each starts one download and shows no alert.
\<close>

theorem download_of_empty_table_is_refused:
  "(tableData s = [] \<longrightarrow>
      handleDownloadCSV unparse s = (s, [Alert ''No data to download.''])
      \<and> handleDownloadJSON stringify s = (s, [Alert ''No data to download.'']))
   \<and> (tableData s \<noteq> [] \<longrightarrow>
      handleDownloadCSV unparse s
        = (s, [Download ''results.csv'' ''text/csv;charset=utf-8;'' (unparse (tableData s))])
      \<and> handleDownloadJSON stringify s
        = (s, [Download ''results.json'' ''application/json;charset=utf-8;''
                 (stringify (tableData s))]))"
  by (simp add: handleDownloadCSV_def handleDownloadJSON_def)

theorem download_of_empty_table_is_refused_witness:
  "handleDownloadCSV (\<lambda>rows. ''id'') (initial_results None)
     = (initial_results None, [Alert ''No data to download.''])
   \<and> handleDownloadJSON (\<lambda>rows. ''[]'') (handleTableWiseDelete True
        (initial_results (Some [[(''id'', Num 1), (''vessel'', Str ''Aurora'')]])))
     = (handleTableWiseDelete True
          (initial_results (Some [[(''id'', Num 1), (''vessel'', Str ''Aurora'')]])),
        [Alert ''No data to download.''])"
proof -
  have e: "tableData (initial_results None) = []"
    "tableData (handleTableWiseDelete True
        (initial_results (Some [[(''id'', Num 1), (''vessel'', Str ''Aurora'')]]))) = []"
    by (simp_all add: initial_results_def handleTableWiseDelete_def)
  show ?thesis
    using e
      download_of_empty_table_is_refused [of "initial_results None" "\<lambda>rows. ''id''" "\<lambda>rows. ''[]''"]
      download_of_empty_table_is_refused
        [of "handleTableWiseDelete True
              (initial_results (Some [[(''id'', Num 1), (''vessel'', Str ''Aurora'')]]))"
          "\<lambda>rows. ''id''" "\<lambda>rows. ''[]''"]
    by simp
qed

end
